theory Spec2Isabelle
  imports Complex_Main
begin

section \<open>The KwikIO reader of \<^verbatim>\<open>neo/io/kwikio.py\<close>\<close>

text \<open>
  The development embeds the four read operations of class \<^verbatim>\<open>KwikIO\<close>
  (\<^verbatim>\<open>read_segment\<close>, \<^verbatim>\<open>read_analogsignal\<close>, \<^verbatim>\<open>read_stimulus\<close>,
  \<^verbatim>\<open>read_spiketrain\<close>) together with the module-level import guard.

  Conventions of the embedding:
  \<^item> a raised exception is a value \<open>Inl e\<close> of \<open>py_error + 'a\<close>;
  \<^item> Python floats are read as reals; the statements about them below are bounds that
    rounding to binary64 preserves (closed rather than strict ones);
  \<^item> the process-wide generator behind \<^verbatim>\<open>np.random\<close> is an explicit state that every
    drawing function takes and returns;
  \<^item> the names a function body resolves in the module namespace (\<^verbatim>\<open>HAVE_SCIPY\<close>,
    \<^verbatim>\<open>SCIPY_ERR\<close>, \<^verbatim>\<open>stats\<close>, \<^verbatim>\<open>timevect\<close>) are fields of a record of module
    globals that every method receives;
  \<^item> the constructors \<^verbatim>\<open>Segment\<close>, \<^verbatim>\<open>AnalogSignal\<close> and \<^verbatim>\<open>EpochArray\<close> of
    \<^verbatim>\<open>neo.core\<close> only store their arguments; \<^verbatim>\<open>SpikeTrain\<close> also checks the spike
    times against its bounds and can raise; \<^verbatim>\<open>create_many_to_one_relationship\<close> only
    wires back-references, which the records below do not carry.
\<close>

subsection \<open>Exceptions\<close>

datatype py_error =
  IOError | KeyError | IndexError | ImportError | NameError | TypeError | ValueError

subsection \<open>The HDF5 containers\<close>

text \<open>
  A two-dimensional dataset: \<open>rows d ! i\<close> is what \<^verbatim>\<open>d[i]\<close> returns, \<open>dshape d\<close> is
  \<^verbatim>\<open>d.shape\<close>. The column count is kept beside the rows because an array without rows
  still has one.
\<close>

record h5dataset =
  rows :: "int list list"
  ncols :: nat

definition dshape :: "h5dataset \<Rightarrow> nat \<times> nat" where
  "dshape d = (length (rows d), ncols d)"

definition wf_dataset :: "h5dataset \<Rightarrow> bool" where
  "wf_dataset d = list_all (\<lambda>r. length r = ncols d) (rows d)"

text \<open>
  \<^verbatim>\<open>d[i]\<close> for a non-negative integer: row \<open>i\<close>, or the error h5py raises for an
  index past the last row (\<^verbatim>\<open>ValueError\<close> in old releases, \<^verbatim>\<open>IndexError\<close> in newer
  ones; it is called \<open>IndexError\<close> here).
\<close>

definition getitem_row :: "h5dataset \<Rightarrow> nat \<Rightarrow> py_error + int list" where
  "getitem_row d i = (if i < length (rows d) then Inr (rows d ! i) else Inl IndexError)"

text \<open>
  The attribute set of one recording; an absent key is \<open>None\<close> and reading it raises
  \<^verbatim>\<open>KeyError\<close>. \<^verbatim>\<open>attrs['shape']\<close> is the scalar that \<^verbatim>\<open>np.arange(0, attrs['shape'])\<close>
  accepts.
\<close>

record rec_attrs =
  sample_rate :: "real option"
  start_time :: "real option"
  shape :: "int option"

record recording =
  data :: h5dataset
  attrs :: rec_attrs

text \<open>
  An opened file: the group \<^verbatim>\<open>recordings\<close>, keyed by the dataset number (the source
  keys it by \<^verbatim>\<open>str(dataset)\<close>, which is one-to-one on integers).
\<close>

record h5file =
  recordings :: "int \<rightharpoonup> recording"

definition getitem_attr :: "'a option \<Rightarrow> py_error + 'a" where
  "getitem_attr v = (case v of None \<Rightarrow> Inl KeyError | Some x \<Rightarrow> Inr x)"

definition lookup_recording :: "h5file \<Rightarrow> int \<Rightarrow> py_error + recording" where
  "lookup_recording kwd dataset =
     (case recordings kwd dataset of None \<Rightarrow> Inl KeyError | Some r \<Rightarrow> Inr r)"

text \<open>\<^verbatim>\<open>h5py.File(path, 'r')\<close> over a file system that maps paths to containers.\<close>

definition h5py_File :: "(string \<rightharpoonup> h5file) \<Rightarrow> string \<Rightarrow> py_error + h5file" where
  "h5py_File fs path = (case fs path of None \<Rightarrow> Inl IOError | Some f \<Rightarrow> Inr f)"

text \<open>
  \<^verbatim>\<open>os.path.splitext\<close> (POSIX): the extension starts at the last dot of the last path
  component, unless that component has only dots before it.
\<close>

definition rfind :: "string \<Rightarrow> char \<Rightarrow> int" where
  "rfind p c =
     (case filter (\<lambda>i. p ! i = c) (rev [0..<length p]) of
        [] \<Rightarrow> - 1
      | i # _ \<Rightarrow> int i)"

definition splitext :: "string \<Rightarrow> string \<times> string" where
  "splitext p =
     (let sepIndex = rfind p (CHR ''/'');
          dotIndex = rfind p (CHR ''.'')
      in if dotIndex > sepIndex \<and>
            list_ex (\<lambda>i. p ! i \<noteq> CHR ''.'') [nat (sepIndex + 1)..<nat dotIndex]
         then (take (nat dotIndex) p, drop (nat dotIndex) p)
         else (p, []))"

subsection \<open>The random generator\<close>

text \<open>
  The state of \<^verbatim>\<open>np.random\<close>: \<open>pos\<close> counts the values handed out so far; the value
  handed out at position \<open>k\<close> is \<open>uniform r k\<close> when \<^verbatim>\<open>rand\<close> asks and \<open>normal r k\<close>
  when \<^verbatim>\<open>randn\<close> asks.
\<close>

record rng =
  uniform :: "nat \<Rightarrow> real"
  normal :: "nat \<Rightarrow> real"
  pos :: nat

text \<open>The contract of \<^verbatim>\<open>np.random.rand\<close>: every value lies in \<open>[0, 1)\<close>.\<close>

definition rng_ok :: "rng \<Rightarrow> bool" where
  "rng_ok r = (\<forall>k. 0 \<le> uniform r k \<and> uniform r k < 1)"

definition rand :: "nat \<Rightarrow> rng \<Rightarrow> real list \<times> rng" where
  "rand n r = (map (uniform r) [pos r..<pos r + n], r\<lparr>pos := pos r + n\<rparr>)"

definition rand1 :: "rng \<Rightarrow> real \<times> rng" where
  "rand1 r = (uniform r (pos r), r\<lparr>pos := Suc (pos r)\<rparr>)"

definition randn :: "nat \<Rightarrow> rng \<Rightarrow> real list \<times> rng" where
  "randn n r = (map (normal r) [pos r..<pos r + n], r\<lparr>pos := pos r + n\<rparr>)"

subsection \<open>Module globals and the import guard\<close>

text \<open>\<^verbatim>\<open>stats.nct.pdf(x, df, nc)\<close> at one point.\<close>

type_synonym nct_pdf = "real \<Rightarrow> real \<Rightarrow> real \<Rightarrow> real"

record module_globals =
  HAVE_SCIPY :: bool
  SCIPY_ERR :: "py_error option"
  stats :: "nct_pdf option"
  timevect :: "real list option"

text \<open>
  Executing the module body. The argument is the outcome of \<^verbatim>\<open>from scipy import stats\<close>:
  \<open>None\<close> when it raises \<^verbatim>\<open>ImportError\<close>. No statement of the module binds
  \<^verbatim>\<open>timevect\<close>.
\<close>

definition load_module :: "nct_pdf option \<Rightarrow> module_globals" where
  "load_module scipy_import =
     (case scipy_import of
        None \<Rightarrow>
          \<lparr>HAVE_SCIPY = False, SCIPY_ERR = Some ImportError, stats = None, timevect = None\<rparr>
      | Some st \<Rightarrow>
          \<lparr>HAVE_SCIPY = True, SCIPY_ERR = None, stats = Some st, timevect = None\<rparr>)"

subsection \<open>The objects of the data model\<close>

record analogsignal =
  ana_signal :: "int list"
  ana_units :: string
  ana_sampling_rate :: real
  ana_t_start :: real
  ana_channel_index :: nat
  ana_lazy_shape :: "int option"
  ana_annotations :: "(string \<times> string) list"

record spiketrain =
  sp_times :: "real list"
  sp_t_start :: real
  sp_t_stop :: real
  sp_units :: string
  sp_name :: string
  sp_lazy_shape :: "nat list option"
  sp_waveforms :: "real list list list option"
  sp_sampling_rate :: "real option"
  sp_left_sweep :: "real option"
  sp_annotations :: "(string \<times> nat) list"

text \<open>Onset times are in seconds, durations in milliseconds.\<close>

record epocharray =
  epo_times :: "real list"
  epo_durations :: "real list"
  epo_labels :: "string list"

record segment =
  seg_name :: string
  analogsignals :: "analogsignal list"
  spiketrains :: "spiketrain list"
  epocharrays :: "epocharray list"
  duration :: "real option"

definition Segment :: "string \<Rightarrow> segment" where
  "Segment nm =
     \<lparr>seg_name = nm, analogsignals = [], spiketrains = [], epocharrays = [], duration = None\<rparr>"

definition EpochArray :: epocharray where
  "EpochArray = \<lparr>epo_times = [], epo_durations = [], epo_labels = []\<rparr>"

text \<open>
  Modelled from the spec: the constructor \<^verbatim>\<open>SpikeTrain\<close> of \<^verbatim>\<open>neo.core\<close> is not part
  of \<^verbatim>\<open>kwikio.py\<close>. A spike train's timestamps are bounded by \<open>t_start\<close> and
  \<open>t_stop\<close>; the constructor enforces it when it is given times, admitting both bounds
  (a time equal to \<open>t_stop\<close> passes): it raises \<^verbatim>\<open>ValueError\<close> if the smallest time
  is below \<open>t_start\<close> or the largest above \<open>t_stop\<close>, and otherwise stores its
  arguments.
\<close>

definition check_time_in_range :: "real list \<Rightarrow> real \<Rightarrow> real \<Rightarrow> py_error + unit" where
  "check_time_in_range ts t_start t_stop =
     (case ts of
        [] \<Rightarrow> Inr ()
      | x # xs \<Rightarrow>
          if fold min xs x < t_start then Inl ValueError
          else if fold max xs x > t_stop then Inl ValueError
          else Inr ())"

definition SpikeTrain ::
  "real list \<Rightarrow> real \<Rightarrow> real \<Rightarrow> string \<Rightarrow> string \<Rightarrow> py_error + spiketrain" where
  "SpikeTrain ts t_start t_stop u nm =
     (case check_time_in_range ts t_start t_stop of
        Inl e \<Rightarrow> Inl e
      | Inr _ \<Rightarrow>
          Inr \<lparr>sp_times = ts, sp_t_start = t_start, sp_t_stop = t_stop, sp_units = u,
               sp_name = nm, sp_lazy_shape = None, sp_waveforms = None,
               sp_sampling_rate = None, sp_left_sweep = None, sp_annotations = []\<rparr>)"

subsection \<open>\<^verbatim>\<open>read_analogsignal\<close>\<close>

definition read_analogsignal ::
  "module_globals \<Rightarrow> bool \<Rightarrow> h5file \<Rightarrow> nat \<Rightarrow> int \<Rightarrow> py_error + analogsignal" where
  "read_analogsignal g lazy kwd channel_index dataset =
     (case lookup_recording kwd dataset of
        Inl e \<Rightarrow> Inl e
      | Inr rec \<Rightarrow>
          if lazy then
            (case getitem_attr (sample_rate (attrs rec)) of
               Inl e \<Rightarrow> Inl e
             | Inr sr \<Rightarrow>
                 (case getitem_attr (start_time (attrs rec)) of
                    Inl e \<Rightarrow> Inl e
                  | Inr st \<Rightarrow>
                      (case getitem_attr (shape (attrs rec)) of
                         Inl e \<Rightarrow> Inl e
                       | Inr sh \<Rightarrow>
                           Inr \<lparr>ana_signal = [], ana_units = ''V'',
                                ana_sampling_rate = sr, ana_t_start = st,
                                ana_channel_index = channel_index,
                                ana_lazy_shape = Some sh,
                                ana_annotations = [(''info'', ''What to insert metadata'')]\<rparr>)))
          else
            (case getitem_row (data rec) channel_index of
               Inl e \<Rightarrow> Inl e
             | Inr row \<Rightarrow>
                 (case getitem_attr (sample_rate (attrs rec)) of
                    Inl e \<Rightarrow> Inl e
                  | Inr sr \<Rightarrow>
                      (case getitem_attr (start_time (attrs rec)) of
                         Inl e \<Rightarrow> Inl e
                       | Inr st \<Rightarrow>
                           Inr \<lparr>ana_signal = row, ana_units = ''V'',
                                ana_sampling_rate = sr, ana_t_start = st,
                                ana_channel_index = channel_index,
                                ana_lazy_shape = None,
                                ana_annotations = [(''info'', ''What to insert metadata'')]\<rparr>))))"

subsection \<open>\<^verbatim>\<open>read_stimulus\<close>\<close>

text \<open>
  \<^verbatim>\<open>x.astype('i')\<close> truncates towards zero; \<^verbatim>\<open>a[k]\<close> on a one-dimensional array
  takes a negative \<open>k\<close> from the end and raises \<^verbatim>\<open>IndexError\<close> outside
  \<open>[-size, size)\<close>. Indexing with an array of indices fails if one of them does.
\<close>

definition astype_i :: "real \<Rightarrow> int" where
  "astype_i x = (if 0 \<le> x then \<lfloor>x\<rfloor> else \<lceil>x\<rceil>)"

definition getitem :: "'a list \<Rightarrow> int \<Rightarrow> py_error + 'a" where
  "getitem xs k =
     (let n = int (length xs)
      in if - n \<le> k \<and> k < n then Inr (xs ! nat (if k < 0 then k + n else k))
         else Inl IndexError)"

fun getitems :: "'a list \<Rightarrow> int list \<Rightarrow> py_error + 'a list" where
  "getitems xs [] = Inr []"
| "getitems xs (k # ks) =
     (case getitem xs k of
        Inl e \<Rightarrow> Inl e
      | Inr v \<Rightarrow> (case getitems xs ks of Inl e \<Rightarrow> Inl e | Inr vs \<Rightarrow> Inr (v # vs)))"

text \<open>
  The label loop \<^verbatim>\<open>for i in range(n): if np.random.rand()>.6: l.append('TriggerA')
  else: l.append('TriggerB')\<close>, with the list \<open>l\<close> and the generator threaded through.
\<close>

fun label_loop :: "nat \<Rightarrow> string list \<Rightarrow> rng \<Rightarrow> string list \<times> rng" where
  "label_loop 0 l r = (l, r)"
| "label_loop (Suc k) l r =
     (case rand1 r of
        (u, r') \<Rightarrow> label_loop k (l @ [if u > 6 / 10 then ''TriggerA'' else ''TriggerB'']) r')"

definition read_stimulus ::
  "module_globals \<Rightarrow> bool \<Rightarrow> rng \<Rightarrow> py_error + (epocharray \<times> rng)" where
  "read_stimulus g lazy r =
     (let epo = EpochArray
      in if lazy then Inr (epo, r)
         else
           (let n = 1000
            in case timevect g of
                 None \<Rightarrow> Inl NameError
               | Some tv \<Rightarrow>
                   (case rand n r of
                      (us, r1) \<Rightarrow>
                        (case getitems tv (map (\<lambda>u. astype_i (u * real (length tv))) us) of
                           Inl e \<Rightarrow> Inl e
                         | Inr ts \<Rightarrow>
                             (case label_loop n [] r1 of
                                (l, r2) \<Rightarrow>
                                  Inr (epo\<lparr>epo_times := ts,
                                           epo_durations := map (\<lambda>x. x * 500) (replicate n 1),
                                           epo_labels := l\<rparr>, r2))))))"

subsection \<open>\<^verbatim>\<open>read_spiketrain\<close>\<close>

text \<open>\<^verbatim>\<open>np.arange(a, b, s)\<close> for a positive integer step.\<close>

definition arange :: "int \<Rightarrow> int \<Rightarrow> int \<Rightarrow> real list" where
  "arange a b s = map (\<lambda>k. real_of_int (a + int k * s)) [0..<nat ((b - a + s - 1) div s)]"

text \<open>The builtin \<^verbatim>\<open>max\<close> over a sequence: the running maximum from the first element.\<close>

definition py_max :: "real list \<Rightarrow> py_error + real" where
  "py_max xs = (case xs of [] \<Rightarrow> Inl ValueError | x # ys \<Rightarrow> Inr (fold max ys x))"

text \<open>
  The fake spike shape: \<^verbatim>\<open>w1 = -stats.nct.pdf(np.arange(11,60,4), 5,20)[::-1]/3.\<close>,
  \<^verbatim>\<open>w2 = stats.nct.pdf(np.arange(11,60,2), 5,20)\<close>, \<^verbatim>\<open>w = np.r_[w1, w2]\<close>,
  \<^verbatim>\<open>w = -w/max(w)\<close>.
\<close>

definition template_w1 :: "nct_pdf \<Rightarrow> real list" where
  "template_w1 pdf = map (\<lambda>v. (- v) / 3) (rev (map (\<lambda>x. pdf x 5 20) (arange 11 60 4)))"

definition template_w2 :: "nct_pdf \<Rightarrow> real list" where
  "template_w2 pdf = map (\<lambda>x. pdf x 5 20) (arange 11 60 2)"

definition spike_template :: "nct_pdf \<Rightarrow> py_error + real list" where
  "spike_template pdf =
     (let w = template_w1 pdf @ template_w2 pdf
      in case py_max w of
           Inl e \<Rightarrow> Inl e
         | Inr m \<Rightarrow> Inr (map (\<lambda>v. (- v) / m) w))"

text \<open>
  \<^verbatim>\<open>np.tile(w[np.newaxis,np.newaxis,:], (n,1,1))\<close> multiplied in place by
  \<^verbatim>\<open>np.random.randn(n,1,len(w))/6+1\<close>; the noise values fill the array in row-major
  order.
\<close>

definition noisy_waveforms :: "nat \<Rightarrow> real list \<Rightarrow> real list \<Rightarrow> real list list list" where
  "noisy_waveforms n w noise =
     map (\<lambda>i. [map (\<lambda>j. (w ! j) * (noise ! (i * length w + j) / 6 + 1)) [0..<length w]])
       [0..<n]"

definition read_spiketrain ::
  "module_globals \<Rightarrow> bool \<Rightarrow> bool \<Rightarrow> real \<Rightarrow> real \<Rightarrow> nat \<Rightarrow> rng
     \<Rightarrow> py_error + (spiketrain \<times> rng)" where
  "read_spiketrain g lazy cascade segment_duration t_start channel_index r =
     (if \<not> HAVE_SCIPY g then
        (case SCIPY_ERR g of Some e \<Rightarrow> Inl e | None \<Rightarrow> Inl TypeError)
      else
        (let num_spike_by_spiketrain = 40;
             sr = 10000
         in case (if lazy then ([], r)
                  else (case rand num_spike_by_spiketrain r of
                          (us, r1) \<Rightarrow> (map (\<lambda>u. u * segment_duration + t_start) us, r1))) of
              (stimes, r1) \<Rightarrow>
                (case SpikeTrain stimes t_start (t_start + segment_duration) ''s''
                        ''it is a spiketrain from exampleio'' of
                   Inl e \<Rightarrow> Inl e
                 | Inr spiketr0 \<Rightarrow>
                     (let spiketr =
                            (if lazy
                             then spiketr0\<lparr>sp_lazy_shape := Some [num_spike_by_spiketrain]\<rparr>
                             else spiketr0)
                      in case stats g of
                           None \<Rightarrow> Inl NameError
                         | Some pdf \<Rightarrow>
                             (case spike_template pdf of
                                Inl e \<Rightarrow> Inl e
                              | Inr w \<Rightarrow>
                                  if \<not> lazy then
                                    (case randn (num_spike_by_spiketrain * 1 * length w) r1 of
                                       (noise, r2) \<Rightarrow>
                                         Inr (spiketr
                                               \<lparr>sp_waveforms :=
                                                  Some (noisy_waveforms num_spike_by_spiketrain
                                                          w noise),
                                                sp_sampling_rate := Some sr,
                                                sp_left_sweep := Some (15 / 10),
                                                sp_annotations :=
                                                  [(''channel_index'', channel_index)]\<rparr>,
                                              r2))
                                  else
                                    Inr (spiketr
                                          \<lparr>sp_annotations :=
                                             [(''channel_index'', channel_index)]\<rparr>,
                                         r1))))))"

subsection \<open>\<^verbatim>\<open>read_segment\<close>\<close>

text \<open>
  The loop \<^verbatim>\<open>for i in range(num_channels): ana = self.read_analogsignal(...);
  seg.analogsignals += [ana]\<close> over the list of its indices.
\<close>

fun analogsignal_loop ::
  "module_globals \<Rightarrow> bool \<Rightarrow> h5file \<Rightarrow> int \<Rightarrow> nat list \<Rightarrow> segment \<Rightarrow> py_error + segment" where
  "analogsignal_loop g lazy kwd dataset [] seg = Inr seg"
| "analogsignal_loop g lazy kwd dataset (i # rest) seg =
     (case read_analogsignal g lazy kwd i dataset of
        Inl e \<Rightarrow> Inl e
      | Inr ana \<Rightarrow>
          analogsignal_loop g lazy kwd dataset rest
            (seg\<lparr>analogsignals := analogsignals seg @ [ana]\<rparr>))"

text \<open>
  The inner loop \<^verbatim>\<open>for _ in range(num_spiketrain_by_channel)\<close> for one channel \<open>i\<close>;
  \<^verbatim>\<open>read_spiketrain\<close> runs with its defaults \<^verbatim>\<open>cascade=True\<close>,
  \<^verbatim>\<open>segment_duration=15.\<close>, \<^verbatim>\<open>t_start=-1\<close>.
\<close>

fun spiketrain_inner ::
  "module_globals \<Rightarrow> bool \<Rightarrow> nat \<Rightarrow> nat \<Rightarrow> segment \<Rightarrow> rng \<Rightarrow> py_error + (segment \<times> rng)" where
  "spiketrain_inner g lazy i 0 seg r = Inr (seg, r)"
| "spiketrain_inner g lazy i (Suc k) seg r =
     (case read_spiketrain g lazy True 15 (- 1) i r of
        Inl e \<Rightarrow> Inl e
      | Inr (sptr, r') \<Rightarrow>
          spiketrain_inner g lazy i k (seg\<lparr>spiketrains := spiketrains seg @ [sptr]\<rparr>) r')"

fun spiketrain_loop ::
  "module_globals \<Rightarrow> bool \<Rightarrow> nat list \<Rightarrow> segment \<Rightarrow> rng \<Rightarrow> py_error + (segment \<times> rng)" where
  "spiketrain_loop g lazy [] seg r = Inr (seg, r)"
| "spiketrain_loop g lazy (i # rest) seg r =
     (let num_spiketrain_by_channel = 3
      in case spiketrain_inner g lazy i num_spiketrain_by_channel seg r of
           Inl e \<Rightarrow> Inl e
         | Inr (seg', r') \<Rightarrow> spiketrain_loop g lazy rest seg' r')"

text \<open>
  \<^verbatim>\<open>timestamps = (np.arange(0,attrs['shape']) + attrs['start_time']) / attrs['sample_rate']\<close>
  and \<^verbatim>\<open>timestamps.max()\<close>, which raises \<^verbatim>\<open>ValueError\<close> on an empty array.
\<close>

definition segment_duration_of :: "rec_attrs \<Rightarrow> py_error + real" where
  "segment_duration_of a =
     (case getitem_attr (shape a) of
        Inl e \<Rightarrow> Inl e
      | Inr n \<Rightarrow>
          (case getitem_attr (start_time a) of
             Inl e \<Rightarrow> Inl e
           | Inr st \<Rightarrow>
               (case getitem_attr (sample_rate a) of
                  Inl e \<Rightarrow> Inl e
                | Inr sr \<Rightarrow> py_max (map (\<lambda>x. (x + st) / sr) (arange 0 n 1)))))"

definition read_segment ::
  "module_globals \<Rightarrow> (string \<rightharpoonup> h5file) \<Rightarrow> string \<Rightarrow> bool \<Rightarrow> bool \<Rightarrow> int \<Rightarrow> rng
     \<Rightarrow> py_error + (segment \<times> rng)" where
  "read_segment g fs filename lazy cascade dataset r =
     (case splitext filename of
        (basename, ext) \<Rightarrow>
          (case h5py_File fs filename of
             Inl e \<Rightarrow> Inl e
           | Inr kwik \<Rightarrow>
               (case h5py_File fs (basename @ ''.raw.kwd'') of
                  Inl e \<Rightarrow> Inl e
                | Inr kwd \<Rightarrow>
                    (case lookup_recording kwd dataset of
                       Inl e \<Rightarrow> Inl e
                     | Inr rec \<Rightarrow>
                         (let num_channels = snd (dshape (data rec));
                              seg = Segment ''session something''
                          in if cascade then
                               (case analogsignal_loop g lazy kwd dataset [0..<num_channels] seg of
                                  Inl e \<Rightarrow> Inl e
                                | Inr seg1 \<Rightarrow>
                                    (case spiketrain_loop g lazy [0..<num_channels] seg1 r of
                                       Inl e \<Rightarrow> Inl e
                                     | Inr (seg2, r1) \<Rightarrow>
                                         (case read_stimulus g lazy r1 of
                                            Inl e \<Rightarrow> Inl e
                                          | Inr (epo, r2) \<Rightarrow>
                                              (case segment_duration_of (attrs rec) of
                                                 Inl e \<Rightarrow> Inl e
                                               | Inr m \<Rightarrow>
                                                   Inr (seg2\<lparr>epocharrays := epocharrays seg2 @ [epo],
                                                             duration := Some m\<rparr>, r2)))))
                             else Inr (seg, r))))))"

subsection \<open>A synthetic container\<close>

text \<open>
  A recording whose array has \<^verbatim>\<open>data.shape == (3, 2)\<close>. \<^verbatim>\<open>read_segment\<close> takes
  dimension 1 for the channels, so it finds \<^verbatim>\<open>num_channels == 2\<close>, and each of the
  two channels has three samples. Its attributes declare 3 samples at 2 Hz from offset 0.
  It lives in \<^verbatim>\<open>exp.raw.kwd\<close> beside an \<^verbatim>\<open>exp.kwik\<close> that is only opened.
  A stand-in density that is positive on the sampled points, and a generator whose
  uniform values alternate between 1/4 and 3/4, complete the example.
\<close>

definition example_pdf :: nct_pdf where
  "example_pdf x df nc = 1 / x"

definition example_rng :: rng where
  "example_rng =
     \<lparr>uniform = (\<lambda>k. if even k then 1 / 4 else 3 / 4), normal = (\<lambda>k. 0), pos = 0\<rparr>"

definition example_recording :: recording where
  "example_recording =
     \<lparr>data = \<lparr>rows = [[1, 2], [3, 4], [5, 6]], ncols = 2\<rparr>,
      attrs = \<lparr>sample_rate = Some 2, start_time = Some 0, shape = Some 3\<rparr>\<rparr>"

definition example_kwd :: h5file where
  "example_kwd = \<lparr>recordings = [0 \<mapsto> example_recording]\<rparr>"

definition example_fs :: "string \<rightharpoonup> h5file" where
  "example_fs =
     [''exp.kwik'' \<mapsto> \<lparr>recordings = Map.empty\<rparr>, ''exp.raw.kwd'' \<mapsto> example_kwd]"

section \<open>Basic facts\<close>

lemma load_module_simps:
  "HAVE_SCIPY (load_module None) = False"
  "SCIPY_ERR (load_module None) = Some ImportError"
  "HAVE_SCIPY (load_module (Some pdf)) = True"
  "stats (load_module (Some pdf)) = Some pdf"
  "timevect (load_module imp) = None"
  by (simp_all add: load_module_def split: option.split)

lemma splitext_example: "splitext ''exp.kwik'' = (''exp'', ''.kwik'')"
  by (simp add: splitext_def rfind_def upt_conv_Cons)

lemma example_fs_simps:
  "example_fs ''exp.kwik'' = Some \<lparr>recordings = Map.empty\<rparr>"
  "example_fs ''exp.raw.kwd'' = Some example_kwd"
  "recordings example_kwd 0 = Some example_recording"
  by (simp_all add: example_fs_def example_kwd_def)

lemma example_pdf_positive: "\<forall>x\<in>set (arange 11 60 2). 0 < example_pdf x 5 20"
  by (auto simp: arange_def example_pdf_def)

lemma example_rng_ok: "rng_ok example_rng"
  by (simp add: rng_ok_def example_rng_def)

lemma rng_ok_pos [simp]: "rng_ok (r\<lparr>pos := p\<rparr>) = rng_ok r"
  by (simp add: rng_ok_def)

lemma length_arange: "length (arange a b s) = nat ((b - a + s - 1) div s)"
  by (simp add: arange_def)

text \<open>The points of \<^verbatim>\<open>np.arange(11,60,4)\<close> are among those of \<^verbatim>\<open>np.arange(11,60,2)\<close>.\<close>

lemma arange_subset: "set (arange 11 60 4) \<subseteq> set (arange 11 60 2)"
proof
  fix x assume "x \<in> set (arange 11 60 4)"
  then obtain k where k: "k < 13" "x = real_of_int (11 + int k * 4)"
    by (auto simp: arange_def)
  have "x = real_of_int (11 + int (2 * k) * 2)" using k by simp
  moreover have "2 * k < 25" using k by simp
  ultimately show "x \<in> set (arange 11 60 2)"
    unfolding arange_def by (auto simp: image_iff intro!: bexI[of _ "2*k"])
qed

lemma py_max_Max: "xs \<noteq> [] \<Longrightarrow> py_max xs = Inr (Max (set xs))"
proof (cases xs)
  case Nil
  assume "xs \<noteq> []"
  with Nil show ?thesis by simp
next
  case (Cons x ys)
  have "fold max ys x = Max (set (x # ys))"
    by (rule Max.set_eq_fold [symmetric])
  with Cons show ?thesis by (simp add: py_max_def)
qed

section \<open>\<^verbatim>\<open>read_spiketrain\<close> in closed form and the import guard\<close>

lemma length_template_w1: "length (template_w1 pdf) = 13"
  by (simp add: template_w1_def length_arange)

lemma length_template_w2: "length (template_w2 pdf) = 25"
  by (simp add: template_w2_def length_arange)

text \<open>The template is never empty, so \<^verbatim>\<open>max(w)\<close> cannot raise.\<close>

lemma spike_template_Inr:
  "spike_template pdf =
     Inr (map (\<lambda>v. (- v) / Max (set (template_w1 pdf @ template_w2 pdf)))
            (template_w1 pdf @ template_w2 pdf))"
proof -
  have "template_w1 pdf @ template_w2 pdf \<noteq> []"
    using length_template_w2 [of pdf] by auto
  then show ?thesis
    by (simp add: spike_template_def Let_def py_max_Max)
qed

lemma spike_template_length: "spike_template pdf = Inr w \<Longrightarrow> length w = 38"
  by (auto simp: spike_template_Inr length_template_w1 length_template_w2)

text \<open>Times between the bounds, the bounds included, pass the constructor's check.\<close>

lemma check_time_in_range_ok:
  assumes "\<forall>t\<in>set ts. lo \<le> t \<and> t \<le> hi"
  shows "check_time_in_range ts lo hi = Inr ()"
proof (cases ts)
  case Nil
  then show ?thesis by (simp add: check_time_in_range_def)
next
  case (Cons x xs)
  have mn: "fold min xs x = Min (set (x # xs))"
    by (rule Min.set_eq_fold [symmetric])
  have mx: "fold max xs x = Max (set (x # xs))"
    by (rule Max.set_eq_fold [symmetric])
  have "Min (set (x # xs)) \<in> set (x # xs)" by (rule Min_in) simp_all
  with assms Cons have "lo \<le> Min (set (x # xs))" by blast
  then have lo: "lo \<le> fold min xs x" by (simp only: mn)
  have "Max (set (x # xs)) \<in> set (x # xs)" by (rule Max_in) simp_all
  with assms Cons have "Max (set (x # xs)) \<le> hi" by blast
  then have hi: "fold max xs x \<le> hi" by (simp only: mx)
  from lo hi Cons show ?thesis by (simp add: check_time_in_range_def)
qed

lemma uniform_scaled_in_range:
  assumes "rng_ok r" and "0 \<le> sd"
  shows "ts \<le> uniform r k * sd + ts \<and> uniform r k * sd + ts \<le> ts + sd"
proof -
  from assms(1) have u: "0 \<le> uniform r k" "uniform r k < 1" by (auto simp: rng_ok_def)
  from u(1) assms(2) have "0 \<le> uniform r k * sd" by simp
  moreover from u(2) assms(2) have "uniform r k * sd \<le> 1 * sd"
    by (intro mult_right_mono) simp_all
  ultimately show ?thesis by simp
qed

lemma SpikeTrain_drawn:
  assumes "rng_ok r" and "0 \<le> sd"
  shows "SpikeTrain (map (\<lambda>u. u * sd + ts) (map (uniform r) ks)) ts (ts + sd) u nm =
     Inr \<lparr>sp_times = map (\<lambda>u. u * sd + ts) (map (uniform r) ks), sp_t_start = ts,
          sp_t_stop = ts + sd, sp_units = u, sp_name = nm, sp_lazy_shape = None,
          sp_waveforms = None, sp_sampling_rate = None, sp_left_sweep = None,
          sp_annotations = []\<rparr>"
proof -
  have "\<forall>t\<in>set (map (\<lambda>u. u * sd + ts) (map (uniform r) ks)). ts \<le> t \<and> t \<le> ts + sd"
    using uniform_scaled_in_range [OF assms, of ts] by auto
  from check_time_in_range_ok [OF this] show ?thesis by (simp add: SpikeTrain_def)
qed

lemma SpikeTrain_error: "SpikeTrain tms lo hi u nm = Inl e \<Longrightarrow> e = ValueError"
  by (auto simp: SpikeTrain_def check_time_in_range_def split: sum.splits list.splits if_splits)

text \<open>
  The two modes of \<^verbatim>\<open>read_spiketrain\<close> when scipy was imported, in closed form; the
  eager one for a non-negative \<^verbatim>\<open>segment_duration\<close> and uniform draws in \<open>[0, 1)\<close>.
\<close>

lemma read_spiketrain_eager:
  assumes "HAVE_SCIPY g" and "stats g = Some pdf" and "spike_template pdf = Inr w"
    and "rng_ok r" and "0 \<le> sd"
  shows "read_spiketrain g False c sd ts ch r =
     Inr (\<lparr>sp_times = map (\<lambda>u. u * sd + ts) (map (uniform r) [pos r..<pos r + 40]),
           sp_t_start = ts, sp_t_stop = ts + sd, sp_units = ''s'',
           sp_name = ''it is a spiketrain from exampleio'',
           sp_lazy_shape = None,
           sp_waveforms =
             Some (noisy_waveforms 40 w
                     (map (normal r) [pos r + 40..<pos r + 40 + 40 * length w])),
           sp_sampling_rate = Some 10000, sp_left_sweep = Some (15 / 10),
           sp_annotations = [(''channel_index'', ch)]\<rparr>,
          r\<lparr>pos := pos r + 40 + 40 * length w\<rparr>)"
  using assms(1-3)
  by (simp add: read_spiketrain_def rand_def randn_def SpikeTrain_drawn [OF assms(4,5)]
        del: map_map)

lemma read_spiketrain_lazy:
  assumes "HAVE_SCIPY g" and "stats g = Some pdf"
  shows "read_spiketrain g True c sd ts ch r =
     Inr (\<lparr>sp_times = [], sp_t_start = ts, sp_t_stop = ts + sd, sp_units = ''s'',
           sp_name = ''it is a spiketrain from exampleio'',
           sp_lazy_shape = Some [40], sp_waveforms = None,
           sp_sampling_rate = None, sp_left_sweep = None,
           sp_annotations = [(''channel_index'', ch)]\<rparr>, r)"
  using assms
  by (simp add: read_spiketrain_def spike_template_Inr SpikeTrain_def check_time_in_range_def)

lemma read_spiketrain_Inr_scipy:
  assumes "read_spiketrain g lazy c sd ts ch r = Inr res"
  shows "HAVE_SCIPY g \<and> (\<exists>pdf. stats g = Some pdf)"
  using assms
  by (auto simp: read_spiketrain_def Let_def
        split: if_splits option.splits prod.splits sum.splits)

lemma read_spiketrain_scipy_error:
  assumes "HAVE_SCIPY g" and "stats g = Some pdf"
    and "read_spiketrain g lazy c sd ts ch r = Inl e"
  shows "e = ValueError"
  using assms
  by (auto simp: read_spiketrain_def Let_def spike_template_Inr dest: SpikeTrain_error
        split: if_splits prod.splits sum.splits)

lemma read_spiketrain_uniform:
  "read_spiketrain g lazy c sd ts ch r = Inr (st, r') \<Longrightarrow> uniform r' = uniform r"
  by (auto simp: read_spiketrain_def Let_def rand_def randn_def
        split: if_splits option.splits prod.splits sum.splits)

text \<open>
  Claim C9. When \<^verbatim>\<open>from scipy import stats\<close> fails, the module still loads (with
  \<^verbatim>\<open>HAVE_SCIPY = False\<close>) and every call of \<^verbatim>\<open>read_spiketrain\<close>, lazy or eager,
  raises the saved import error. When the import succeeded, no call of
  \<^verbatim>\<open>read_spiketrain\<close> raises that error, and every call with a non-negative
  \<^verbatim>\<open>segment_duration\<close> and uniform draws in \<open>[0, 1)\<close> returns a spike train.
  \<^verbatim>\<open>read_analogsignal\<close> gives the same outcome in both cases, and without scipy its
  eager read still returns a signal whenever the dataset, its two attributes and the
  indexed row exist.
\<close>

theorem read_spiketrain_import_guard:
  "HAVE_SCIPY (load_module None) = False
   \<and> read_spiketrain (load_module None) lazy cascade segment_duration t_start channel_index r
       = Inl ImportError
   \<and> read_spiketrain (load_module (Some pdf)) lazy cascade segment_duration t_start
        channel_index r \<noteq> Inl ImportError
   \<and> (0 \<le> segment_duration \<and> rng_ok r \<longrightarrow>
        (\<exists>res. read_spiketrain (load_module (Some pdf)) lazy cascade segment_duration t_start
                  channel_index r = Inr res))
   \<and> read_analogsignal (load_module None) lazy kwd channel_index dataset
       = read_analogsignal (load_module (Some pdf)) lazy kwd channel_index dataset
   \<and> (recordings kwd dataset = Some rec \<and> sample_rate (attrs rec) = Some sr
        \<and> start_time (attrs rec) = Some st \<and> channel_index < length (rows (data rec)) \<longrightarrow>
        (\<exists>a. read_analogsignal (load_module None) False kwd channel_index dataset = Inr a))"
proof -
  let ?g = "load_module (Some pdf)"
  have scipy: "HAVE_SCIPY ?g" "stats ?g = Some pdf" by (simp_all add: load_module_simps)
  obtain w where w: "spike_template pdf = Inr w" by (simp add: spike_template_Inr)
  have ret: "\<exists>res. read_spiketrain ?g lazy cascade segment_duration t_start channel_index r
               = Inr res"
    if "0 \<le> segment_duration" and "rng_ok r"
    by (cases lazy)
      (simp_all add: read_spiketrain_lazy [OF scipy]
         read_spiketrain_eager [OF scipy w that(2) that(1)])
  have other: "read_spiketrain ?g lazy cascade segment_duration t_start channel_index r
                 \<noteq> Inl ImportError"
    using read_spiketrain_scipy_error [OF scipy] by fastforce
  have none: "read_spiketrain (load_module None) lazy cascade segment_duration t_start
      channel_index r = Inl ImportError"
    by (simp add: read_spiketrain_def load_module_simps)
  have ana: "\<exists>a. read_analogsignal (load_module None) False kwd channel_index dataset = Inr a"
    if "recordings kwd dataset = Some rec" and "sample_rate (attrs rec) = Some sr"
      and "start_time (attrs rec) = Some st" and "channel_index < length (rows (data rec))"
    using that
    by (simp add: read_analogsignal_def lookup_recording_def getitem_row_def getitem_attr_def)
  have same: "read_analogsignal (load_module None) lazy kwd channel_index dataset
       = read_analogsignal ?g lazy kwd channel_index dataset"
    by (simp add: read_analogsignal_def)
  from ret other none ana same show ?thesis
    by (simp add: load_module_simps)
qed

theorem read_spiketrain_import_guard_witness:
  "read_spiketrain (load_module None) False True 15 (- 1) 0 example_rng = Inl ImportError
   \<and> (\<exists>res. read_spiketrain (load_module (Some example_pdf)) False True 15 (- 1) 0 example_rng
              = Inr res)
   \<and> (\<exists>a. read_analogsignal (load_module None) False example_kwd 0 0 = Inr a)"
proof -
  have "recordings example_kwd 0 = Some example_recording
        \<and> sample_rate (attrs example_recording) = Some 2
        \<and> start_time (attrs example_recording) = Some 0
        \<and> 0 < length (rows (data example_recording))"
    by (simp add: example_fs_simps example_recording_def)
  moreover have "(0::real) \<le> 15 \<and> rng_ok example_rng"
    by (simp add: example_rng_ok)
  ultimately show ?thesis
    using read_spiketrain_import_guard
         [of False True 15 "- 1" 0 example_rng example_pdf example_kwd 0 example_recording 2 0]
    by blast
qed

section \<open>\<^verbatim>\<open>read_analogsignal\<close>\<close>

lemma read_analogsignal_channel:
  "read_analogsignal g lazy kwd i ds = Inr a \<Longrightarrow> ana_channel_index a = i"
  by (auto simp: read_analogsignal_def split: sum.splits if_splits)

lemma read_analogsignal_lazy_ok:
  assumes "recordings kwd ds = Some rec" and "sample_rate (attrs rec) = Some sr"
    and "start_time (attrs rec) = Some st" and "shape (attrs rec) = Some n"
  shows "read_analogsignal g True kwd i ds =
     Inr \<lparr>ana_signal = [], ana_units = ''V'', ana_sampling_rate = sr, ana_t_start = st,
          ana_channel_index = i, ana_lazy_shape = Some n,
          ana_annotations = [(''info'', ''What to insert metadata'')]\<rparr>"
  using assms by (simp add: read_analogsignal_def lookup_recording_def getitem_attr_def)

text \<open>
  What the eager read returns on any rectangular dataset: as many samples as dimension 1
  of the array's shape, which is the number \<^verbatim>\<open>read_segment\<close> takes for the channel
  count.
\<close>

lemma read_analogsignal_eager_length:
  assumes "recordings kwd ds = Some rec" and "wf_dataset (data rec)"
    and "read_analogsignal g False kwd ch ds = Inr a"
  shows "length (ana_signal a) = snd (dshape (data rec))"
  using assms
  by (auto simp: read_analogsignal_def lookup_recording_def getitem_row_def wf_dataset_def
        dshape_def list_all_length split: sum.splits if_splits)

text \<open>
  Claim C2 says that an eager \<^verbatim>\<open>read_analogsignal\<close> returns as many samples as the
  dataset holds per channel, the channel count being dimension 1 of the array's shape.
  The code departs from it: \<^verbatim>\<open>data[channel_index]\<close> indexes dimension 0, so the
  signal runs along dimension 1. On the synthetic container (shape \<open>(3, 2)\<close>: two
  channels of three samples) the eager read of channel 0 returns two samples, not three.
\<close>

theorem read_analogsignal_eager_example:
  "map_sum id (\<lambda>a. length (ana_signal a))
     (read_analogsignal (load_module (Some example_pdf)) False example_kwd 0 0) = Inr 2
   \<and> dshape (data example_recording) = (3, 2)
   \<and> wf_dataset (data example_recording)"
  by (simp add: read_analogsignal_def lookup_recording_def example_fs_simps getitem_row_def
        getitem_attr_def example_recording_def dshape_def wf_dataset_def)

section \<open>The spike template\<close>

lemma spike_template_bounds:
  assumes pos: "\<forall>x\<in>set (arange 11 60 2). 0 < pdf x 5 20"
  shows "\<exists>w. spike_template pdf = Inr w \<and> - 1 \<in> set w \<and>
             (\<forall>v\<in>set w. \<bar>v\<bar> \<le> 1 \<and> (\<bar>v\<bar> = 1 \<longrightarrow> v = - 1))"
proof -
  define w1 where "w1 = template_w1 pdf"
  define w2 where "w2 = template_w2 pdf"
  define m where "m = Max (set (w1 @ w2))"
  have w2_ne: "w2 \<noteq> []" using length_template_w2 [of pdf] by (auto simp: w2_def)
  have w2_pos: "0 < v" if "v \<in> set w2" for v
    using that pos by (auto simp: w2_def template_w2_def)
  have w1_form: "\<exists>q\<in>set w2. v = (- q) / 3" if "v \<in> set w1" for v
  proof -
    from that obtain x where x: "x \<in> set (arange 11 60 4)" "v = (- pdf x 5 20) / 3"
      by (auto simp: w1_def template_w1_def)
    from x(1) arange_subset have "x \<in> set (arange 11 60 2)" by blast
    then have "pdf x 5 20 \<in> set w2" by (simp add: w2_def template_w2_def)
    with x(2) show ?thesis by blast
  qed
  have fin: "finite (set (w1 @ w2))" and ne: "set (w1 @ w2) \<noteq> {}"
    using w2_ne by auto
  have m_in: "m \<in> set (w1 @ w2)" unfolding m_def using fin ne by (rule Max_in)
  have m_ge: "v \<le> m" if "v \<in> set (w1 @ w2)" for v
    unfolding m_def using fin that by (rule Max_ge)
  obtain v0 where v0: "v0 \<in> set w2" using w2_ne by (cases w2) auto
  have m_pos: "0 < m" using w2_pos [OF v0] m_ge [of v0] v0 by auto
  define w where "w = map (\<lambda>v. (- v) / m) (w1 @ w2)"
  have tpl: "spike_template pdf = Inr w"
    by (simp add: spike_template_Inr w_def m_def w1_def w2_def)
  have minus1: "- 1 \<in> set w"
  proof -
    have "(- m) / m \<in> set w" unfolding w_def using m_in by force
    then show ?thesis using m_pos by simp
  qed
  have bound: "\<bar>t\<bar> \<le> 1 \<and> (\<bar>t\<bar> = 1 \<longrightarrow> t = - 1)" if "t \<in> set w" for t
  proof -
    from that obtain v where v: "v \<in> set (w1 @ w2)" "t = (- v) / m"
      by (auto simp: w_def)
    show ?thesis
    proof (cases "v \<in> set w2")
      case True
      have "0 < v" "v \<le> m" using True w2_pos m_ge v(1) by auto
      then have "- 1 \<le> (- v) / m" "(- v) / m < 0"
        using m_pos by (simp_all add: field_simps)
      then have "- 1 \<le> t" "t < 0" using v(2) by simp_all
      then show ?thesis by auto
    next
      case False
      with v(1) have "v \<in> set w1" by auto
      from w1_form [OF this] obtain q where q: "q \<in> set w2" "v = (- q) / 3" by blast
      have "0 < q" "q \<le> m" using q(1) w2_pos m_ge by auto
      then have "0 < (- ((- q) / 3)) / m" "(- ((- q) / 3)) / m < 1"
        using m_pos by (simp_all add: field_simps)
      then have "0 < t" "t < 1" using v(2) q(2) by simp_all
      then show ?thesis by auto
    qed
  qed
  from tpl minus1 bound show ?thesis by blast
qed

text \<open>
  Claim C8. \<^verbatim>\<open>read_spiketrain\<close> builds the template \<open>w\<close> in both modes from the density
  alone. Whenever the density is positive at the points it is sampled at (as a
  noncentral t density is), the largest absolute value of \<open>w\<close> is 1, every entry of that
  magnitude equals \<open>-1\<close>, and such an entry exists.
\<close>

theorem spike_template_normalised:
  assumes "\<forall>x\<in>set (arange 11 60 2). 0 < pdf x 5 20"
  shows "\<exists>w. spike_template pdf = Inr w
           \<and> Max (set (map abs w)) = 1
           \<and> (\<forall>i<length w. \<bar>w ! i\<bar> = Max (set (map abs w)) \<longrightarrow> w ! i = - 1)
           \<and> (\<exists>i<length w. w ! i = - 1)"
proof -
  from spike_template_bounds [of pdf] assms obtain w where
    w: "spike_template pdf = Inr w" and m1: "- 1 \<in> set w"
    and bd: "\<forall>v\<in>set w. \<bar>v\<bar> \<le> 1 \<and> (\<bar>v\<bar> = 1 \<longrightarrow> v = - 1)"
    by blast
  have mx: "Max (set (map abs w)) = 1"
  proof (rule Max_eqI)
    show "finite (set (map abs w))" by simp
    show "1 \<in> set (map abs w)" using m1 by force
    fix y assume "y \<in> set (map abs w)"
    then show "y \<le> 1" using bd by auto
  qed
  have "\<forall>i<length w. \<bar>w ! i\<bar> = Max (set (map abs w)) \<longrightarrow> w ! i = - 1"
    using bd mx by (auto simp del: set_map)
  moreover have "\<exists>i<length w. w ! i = - 1"
    using m1 by (simp add: in_set_conv_nth)
  ultimately show ?thesis using w mx by blast
qed

theorem spike_template_normalised_witness:
  "\<exists>w. spike_template example_pdf = Inr w
           \<and> Max (set (map abs w)) = 1
           \<and> (\<forall>i<length w. \<bar>w ! i\<bar> = Max (set (map abs w)) \<longrightarrow> w ! i = - 1)
           \<and> (\<exists>i<length w. w ! i = - 1)"
  using spike_template_normalised [of example_pdf] example_pdf_positive by blast

section \<open>Eager spike trains\<close>

lemma length_noisy_waveforms:
  "length (noisy_waveforms n w noise) = n"
  "s \<in> set (noisy_waveforms n w noise) \<Longrightarrow>
     length s = 1 \<and> (\<forall>row\<in>set s. length row = length w)"
  by (auto simp: noisy_waveforms_def)

lemma read_spiketrain_annotation:
  "read_spiketrain g lazy c sd ts ch r = Inr (st, r') \<Longrightarrow>
     sp_annotations st = [(''channel_index'', ch)]"
  by (auto simp: read_spiketrain_def Let_def SpikeTrain_def
        split: if_splits option.splits sum.splits prod.splits)

text \<open>
  Claim C4 says that every eager \<^verbatim>\<open>read_spiketrain\<close> yields 40 timestamps inside
  \<open>[t_start, t_start + segment_duration)\<close> and a waveform array of shape
  \<open>(40, 1, len(w))\<close>. With \<^verbatim>\<open>segment_duration=0\<close> the interval is empty while the
  call still returns 40 timestamps, all equal to \<^verbatim>\<open>t_start\<close>: none of them lies in it.
\<close>

theorem read_spiketrain_zero_duration_counterexample:
  "map_sum id (\<lambda>res. list_all (\<lambda>t. - 1 \<le> t \<and> t < - 1 + 0) (sp_times (fst res)))
     (read_spiketrain (load_module (Some example_pdf)) False True 0 (- 1) 0 example_rng)
   = Inr False"
proof -
  obtain w where w: "spike_template example_pdf = Inr w" by (simp add: spike_template_Inr)
  have z: "(0::real) \<le> 0" by simp
  have scipy: "HAVE_SCIPY (load_module (Some example_pdf))"
    "stats (load_module (Some example_pdf)) = Some example_pdf"
    by (simp_all add: load_module_simps)
  note eq = read_spiketrain_eager [OF scipy w example_rng_ok z, of True "- 1" 0]
  show ?thesis
    unfolding eq
    by (simp add: list_all_iff example_rng_def) (rule exI [of _ 0], simp)
qed

text \<open>
  Claim C4, amended. With scipy imported, uniform draws in \<open>[0, 1)\<close> and a non-negative
  \<^verbatim>\<open>segment_duration\<close>, every eager \<^verbatim>\<open>read_spiketrain\<close> returns a spike train with
  exactly 40 timestamps, each in the closed interval from \<open>t_start\<close> to
  \<open>t_stop = t_start + segment_duration\<close>, and with 40 waveform snippets, each of one row
  as long as the template.
\<close>

theorem read_spiketrain_eager_shape:
  assumes scipy: "HAVE_SCIPY g" "stats g = Some pdf"
    and rng: "rng_ok r" and dur: "0 \<le> segment_duration"
  shows "\<exists>st r' wf w.
           read_spiketrain g False cascade segment_duration t_start channel_index r = Inr (st, r')
           \<and> length (sp_times st) = 40
           \<and> sp_t_start st = t_start \<and> sp_t_stop st = t_start + segment_duration
           \<and> (\<forall>t\<in>set (sp_times st). sp_t_start st \<le> t \<and> t \<le> sp_t_stop st)
           \<and> sp_waveforms st = Some wf \<and> spike_template pdf = Inr w
           \<and> length wf = 40
           \<and> (\<forall>s\<in>set wf. length s = 1 \<and> (\<forall>row\<in>set s. length row = length w))
           \<and> length (sp_times st) = length wf"
proof -
  obtain w where w: "spike_template pdf = Inr w" by (simp add: spike_template_Inr)
  note eq = read_spiketrain_eager [OF scipy w rng dur,
              of cascade t_start channel_index]
  show ?thesis
    unfolding eq using w uniform_scaled_in_range [OF rng dur, of t_start]
    by (auto simp: length_noisy_waveforms)
qed

theorem read_spiketrain_eager_shape_witness:
  "\<exists>st r' wf w.
     read_spiketrain (load_module (Some example_pdf)) False True 15 (- 1) 0 example_rng
       = Inr (st, r')
     \<and> length (sp_times st) = 40
     \<and> sp_t_start st = - 1 \<and> sp_t_stop st = - 1 + 15
     \<and> (\<forall>t\<in>set (sp_times st). sp_t_start st \<le> t \<and> t \<le> sp_t_stop st)
     \<and> sp_waveforms st = Some wf \<and> spike_template example_pdf = Inr w
     \<and> length wf = 40
     \<and> (\<forall>s\<in>set wf. length s = 1 \<and> (\<forall>row\<in>set s. length row = length w))
     \<and> length (sp_times st) = length wf"
proof -
  have "HAVE_SCIPY (load_module (Some example_pdf))"
    and "stats (load_module (Some example_pdf)) = Some example_pdf"
    and "(0::real) \<le> 15"
    by (simp_all add: load_module_simps)
  from read_spiketrain_eager_shape [OF this(1,2) example_rng_ok this(3), of True "- 1" 0]
  show ?thesis .
qed

section \<open>Lazy reads\<close>

text \<open>
  What every lazy read that returns looks like: no samples and the \<^verbatim>\<open>shape\<close> attribute
  as declared shape for a channel signal; no timestamps, no waveforms and the declared
  shape \<open>(40,)\<close> for a spike train.
\<close>

lemma lazy_read_sequences_empty:
  "(read_analogsignal g True kwd channel_index dataset = Inr a \<longrightarrow>
      ana_signal a = []
      \<and> (\<exists>rec n. recordings kwd dataset = Some rec \<and> shape (attrs rec) = Some n
            \<and> ana_lazy_shape a = Some n))
   \<and> (read_spiketrain g True cascade segment_duration t_start channel_index r = Inr (st, r') \<longrightarrow>
        sp_times st = [] \<and> sp_waveforms st = None \<and> sp_lazy_shape st = Some [40])"
proof (intro conjI impI)
  assume a: "read_analogsignal g True kwd channel_index dataset = Inr a"
  then show "ana_signal a = []"
    by (auto simp: read_analogsignal_def split: sum.splits)
  from a show "\<exists>rec n. recordings kwd dataset = Some rec \<and> shape (attrs rec) = Some n
            \<and> ana_lazy_shape a = Some n"
    by (auto simp: read_analogsignal_def lookup_recording_def getitem_attr_def
          split: sum.splits option.splits)
next
  assume s: "read_spiketrain g True cascade segment_duration t_start channel_index r = Inr (st, r')"
  from read_spiketrain_Inr_scipy [OF s] obtain pdf where
    scipy: "HAVE_SCIPY g" "stats g = Some pdf" by blast
  from s have st: "st = \<lparr>sp_times = [], sp_t_start = t_start,
           sp_t_stop = t_start + segment_duration, sp_units = ''s'',
           sp_name = ''it is a spiketrain from exampleio'',
           sp_lazy_shape = Some [40], sp_waveforms = None,
           sp_sampling_rate = None, sp_left_sweep = None,
           sp_annotations = [(''channel_index'', channel_index)]\<rparr>"
    by (simp add: read_spiketrain_lazy [OF scipy])
  show "sp_times st = []" "sp_waveforms st = None" "sp_lazy_shape st = Some [40]"
    by (simp_all add: st)
qed

text \<open>
  Claim C3 says that a lazy read returns empty sequences and declares the length the
  eager read with the same parameters produces. The code departs from it for channel
  signals: the lazy read declares \<^verbatim>\<open>attrs['shape']\<close> (its comment calls this
  \<^verbatim>\<open>the size if loaded\<close>), while the eager read returns row \<^verbatim>\<open>channel_index\<close> of the
  array, which runs along the channel dimension. On the synthetic container, whose
  attribute declares its three samples per channel, the lazy read of channel 0 declares
  3 and the eager read returns 2 samples.
\<close>

theorem lazy_shape_eager_length_example:
  "map_sum id ana_lazy_shape
     (read_analogsignal (load_module (Some example_pdf)) True example_kwd 0 0) = Inr (Some 3)
   \<and> map_sum id (\<lambda>a. int (length (ana_signal a)))
       (read_analogsignal (load_module (Some example_pdf)) False example_kwd 0 0) = Inr 2"
  by (simp add: read_analogsignal_def lookup_recording_def example_fs_simps getitem_row_def
        getitem_attr_def example_recording_def)

section \<open>\<^verbatim>\<open>read_stimulus\<close>\<close>

lemma label_loop_eq:
  "label_loop k l r =
     (l @ map (\<lambda>i. if uniform r i > 6 / 10 then ''TriggerA'' else ''TriggerB'')
            [pos r..<pos r + k],
      r\<lparr>pos := pos r + k\<rparr>)"
proof (induction k arbitrary: l r)
  case 0
  show ?case by simp
next
  case (Suc k)
  have "[pos r..<pos r + Suc k] = pos r # [Suc (pos r)..<Suc (pos r) + k]"
    by (simp add: upt_conv_Cons)
  then show ?case
    by (simp add: rand1_def Suc.IH del: upt_Suc)
qed

lemma astype_i_unit:
  assumes "0 \<le> u" and "u < 1" and "0 < n"
  shows "0 \<le> astype_i (u * real n) \<and> astype_i (u * real n) < int n"
proof -
  have nn: "0 \<le> u * real n" using assms by simp
  have "u * real n < 1 * real n" using assms by (intro mult_strict_right_mono) simp_all
  then have "\<lfloor>u * real n\<rfloor> < int n" by (simp add: floor_less_iff)
  moreover have "0 \<le> \<lfloor>u * real n\<rfloor>" using nn by simp
  ultimately show ?thesis using nn by (simp add: astype_i_def)
qed

lemma getitems_in_range:
  assumes "\<forall>k\<in>set ks. 0 \<le> k \<and> k < int (length xs)"
  shows "getitems xs ks = Inr (map (\<lambda>k. xs ! nat k) ks)"
  using assms by (induction ks) (auto simp: getitem_def Let_def)

lemma read_stimulus_lazy: "read_stimulus g True r = Inr (EpochArray, r)"
  by (simp add: read_stimulus_def)

lemma read_stimulus_unbound:
  "timevect g = None \<Longrightarrow> read_stimulus g False r = Inl NameError"
  by (simp add: read_stimulus_def)

text \<open>
  What the eager branch computes once a non-empty \<^verbatim>\<open>timevect\<close> is bound in the
  namespace: 1000 onsets drawn from it, 1000 durations of 500 ms, and 1000 labels, the
  label at each of the next 1000 generator positions being \<^verbatim>\<open>TriggerA\<close> exactly when
  the uniform value drawn there exceeds 0.6.
\<close>

lemma read_stimulus_supplied:
  assumes tv: "timevect g = Some tv" "tv \<noteq> []" and rng: "rng_ok r"
  shows "read_stimulus g False r =
     Inr (\<lparr>epo_times =
             map (\<lambda>i. tv ! nat (astype_i (uniform r i * real (length tv))))
               [pos r..<pos r + 1000],
           epo_durations = replicate 1000 500,
           epo_labels =
             map (\<lambda>i. if uniform r i > 6 / 10 then ''TriggerA'' else ''TriggerB'')
               [pos r + 1000..<pos r + 1000 + 1000]\<rparr>,
          r\<lparr>pos := pos r + 1000 + 1000\<rparr>)"
proof -
  have len: "0 < length tv" using tv(2) by simp
  have "\<forall>k\<in>set (map (\<lambda>u. astype_i (u * real (length tv)))
                   (map (uniform r) [pos r..<pos r + 1000])).
          0 \<le> k \<and> k < int (length tv)"
    using rng astype_i_unit [OF _ _ len] by (auto simp: rng_ok_def)
  from getitems_in_range [OF this]
  have g: "getitems tv (map (\<lambda>u. astype_i (u * real (length tv)))
                          (map (uniform r) [pos r..<pos r + 1000]))
        = Inr (map (\<lambda>i. tv ! nat (astype_i (uniform r i * real (length tv))))
                 [pos r..<pos r + 1000])"
    by (simp add: o_def)
  show ?thesis
    using tv(1) g
    by (simp add: read_stimulus_def rand_def label_loop_eq EpochArray_def)
qed

text \<open>
  Claim C10. The module binds \<^verbatim>\<open>timevect\<close> nowhere. While the name is unbound, every
  eager \<^verbatim>\<open>read_stimulus\<close> raises \<^verbatim>\<open>NameError\<close>; every lazy call returns the empty
  collection and draws nothing; and once the environment binds the name to a non-empty
  vector the eager call returns.
\<close>

theorem read_stimulus_timevect_unbound:
  "timevect (load_module scipy_import) = None
   \<and> (timevect g = None \<longrightarrow> read_stimulus g False r = Inl NameError)
   \<and> (\<exists>epo. read_stimulus g True r = Inr (epo, r)
         \<and> epo_times epo = [] \<and> epo_durations epo = [] \<and> epo_labels epo = [])
   \<and> (timevect g = Some tv \<and> tv \<noteq> [] \<and> rng_ok r \<longrightarrow>
        (\<exists>res. read_stimulus g False r = Inr res))"
  by (simp add: load_module_simps read_stimulus_unbound read_stimulus_lazy EpochArray_def
        read_stimulus_supplied)

theorem read_stimulus_timevect_unbound_witness:
  "read_stimulus (load_module (Some example_pdf)) False example_rng = Inl NameError
   \<and> (\<exists>res. read_stimulus ((load_module (Some example_pdf))\<lparr>timevect := Some [0, 1]\<rparr>)
              False example_rng = Inr res)"
proof -
  have "timevect (load_module (Some example_pdf)) = None"
    by (simp add: load_module_simps)
  moreover have "timevect ((load_module (Some example_pdf))\<lparr>timevect := Some [0, 1]\<rparr>)
                   = Some [0, 1] \<and> [0, 1 :: real] \<noteq> [] \<and> rng_ok example_rng"
    by (simp add: example_rng_ok)
  ultimately show ?thesis
    using read_stimulus_timevect_unbound
            [of "Some example_pdf" "load_module (Some example_pdf)" example_rng "[0, 1]"]
          read_stimulus_timevect_unbound
            [of "Some example_pdf" "(load_module (Some example_pdf))\<lparr>timevect := Some [0, 1]\<rparr>"
                example_rng "[0, 1]"]
    by blast
qed

text \<open>
  Claim C7 says that every eager \<^verbatim>\<open>read_stimulus\<close> returns 1000 onsets, 1000 durations
  of 500 ms and 1000 labels, and every lazy one three empty sequences. The code departs
  from it in the eager branch: in the module as it is written the first statement of
  that branch evaluates the unbound name \<^verbatim>\<open>timevect\<close>, so the call raises
  \<^verbatim>\<open>NameError\<close> and returns nothing.
\<close>

theorem read_stimulus_eager_example:
  "read_stimulus (load_module (Some example_pdf)) False example_rng = Inl NameError"
  by (simp add: read_stimulus_unbound load_module_simps)

section \<open>\<^verbatim>\<open>read_segment\<close>\<close>

subsection \<open>The two loops\<close>

lemma analogsignal_loop_Inr:
  "analogsignal_loop g lazy kwd ds chans seg = Inr seg' \<Longrightarrow>
     \<exists>anas. seg' = seg\<lparr>analogsignals := analogsignals seg @ anas\<rparr>
        \<and> map ana_channel_index anas = chans
        \<and> list_all2 (\<lambda>i a. read_analogsignal g lazy kwd i ds = Inr a) chans anas"
proof (induction chans arbitrary: seg)
  case Nil
  then show ?case by simp
next
  case (Cons i rest)
  from Cons.prems obtain ana where ana: "read_analogsignal g lazy kwd i ds = Inr ana"
    and rest: "analogsignal_loop g lazy kwd ds rest
                 (seg\<lparr>analogsignals := analogsignals seg @ [ana]\<rparr>) = Inr seg'"
    by (auto split: sum.splits)
  from Cons.IH [OF rest] obtain anas where
    anas: "seg' = seg\<lparr>analogsignals := analogsignals seg @ [ana]\<rparr>
                    \<lparr>analogsignals :=
                       analogsignals (seg\<lparr>analogsignals := analogsignals seg @ [ana]\<rparr>) @ anas\<rparr>"
      "map ana_channel_index anas = rest"
      "list_all2 (\<lambda>i a. read_analogsignal g lazy kwd i ds = Inr a) rest anas"
    by blast
  show ?case
    using anas ana read_analogsignal_channel [OF ana]
    by (intro exI [of _ "ana # anas"]) simp
qed

lemma analogsignal_loop_lazy_ok:
  assumes "recordings kwd ds = Some rec" and "sample_rate (attrs rec) = Some sr"
    and "start_time (attrs rec) = Some st" and "shape (attrs rec) = Some n"
  shows "\<exists>seg'. analogsignal_loop g True kwd ds chans seg = Inr seg'"
  by (induction chans arbitrary: seg) (simp_all add: read_analogsignal_lazy_ok [OF assms])

lemma spiketrain_inner_Inr:
  "spiketrain_inner g lazy i k seg r = Inr (seg', r') \<Longrightarrow>
     \<exists>sts. seg' = seg\<lparr>spiketrains := spiketrains seg @ sts\<rparr>
        \<and> map sp_annotations sts = replicate k [(''channel_index'', i)]"
proof (induction k arbitrary: seg r)
  case 0
  then show ?case by simp
next
  case (Suc k)
  from Suc.prems obtain sptr r1 where
    sptr: "read_spiketrain g lazy True 15 (- 1) i r = Inr (sptr, r1)"
    and rest: "spiketrain_inner g lazy i k (seg\<lparr>spiketrains := spiketrains seg @ [sptr]\<rparr>) r1
                 = Inr (seg', r')"
    by (auto split: sum.splits)
  from Suc.IH [OF rest] obtain sts where
    sts: "seg' = seg\<lparr>spiketrains := spiketrains seg @ [sptr]\<rparr>
              \<lparr>spiketrains :=
                 spiketrains (seg\<lparr>spiketrains := spiketrains seg @ [sptr]\<rparr>) @ sts\<rparr>"
      "map sp_annotations sts = replicate k [(''channel_index'', i)]"
    by blast
  show ?case
    using sts read_spiketrain_annotation [OF sptr]
    by (intro exI [of _ "sptr # sts"]) simp
qed

lemma spiketrain_loop_Inr:
  "spiketrain_loop g lazy chans seg r = Inr (seg', r') \<Longrightarrow>
     \<exists>sts. seg' = seg\<lparr>spiketrains := spiketrains seg @ sts\<rparr>
        \<and> map sp_annotations sts
            = concat (map (\<lambda>i. replicate 3 [(''channel_index'', i)]) chans)"
proof (induction chans arbitrary: seg r)
  case Nil
  then show ?case by simp
next
  case (Cons i rest)
  from Cons.prems obtain seg1 r1 where
    inner: "spiketrain_inner g lazy i 3 seg r = Inr (seg1, r1)"
    and outer: "spiketrain_loop g lazy rest seg1 r1 = Inr (seg', r')"
    by (auto split: sum.splits)
  from spiketrain_inner_Inr [OF inner] obtain sts1 where
    sts1: "seg1 = seg\<lparr>spiketrains := spiketrains seg @ sts1\<rparr>"
      "map sp_annotations sts1 = replicate 3 [(''channel_index'', i)]"
    by blast
  from Cons.IH [OF outer] obtain sts2 where
    sts2: "seg' = seg1\<lparr>spiketrains := spiketrains seg1 @ sts2\<rparr>"
      "map sp_annotations sts2 = concat (map (\<lambda>i. replicate 3 [(''channel_index'', i)]) rest)"
    by blast
  show ?case
    using sts1 sts2 by (intro exI [of _ "sts1 @ sts2"]) simp
qed

lemma spiketrain_inner_uniform:
  "spiketrain_inner g lazy i k seg r = Inr (seg', r') \<Longrightarrow> uniform r' = uniform r"
proof (induction k arbitrary: seg r)
  case 0
  then show ?case by simp
next
  case (Suc k)
  from Suc.prems obtain sptr r1 where
    sptr: "read_spiketrain g lazy True 15 (- 1) i r = Inr (sptr, r1)"
    and rest: "spiketrain_inner g lazy i k (seg\<lparr>spiketrains := spiketrains seg @ [sptr]\<rparr>) r1
                 = Inr (seg', r')"
    by (auto split: sum.splits)
  from read_spiketrain_uniform [OF sptr] Suc.IH [OF rest] show ?case by simp
qed

lemma spiketrain_loop_uniform:
  "spiketrain_loop g lazy chans seg r = Inr (seg', r') \<Longrightarrow> uniform r' = uniform r"
proof (induction chans arbitrary: seg r)
  case Nil
  then show ?case by simp
next
  case (Cons i rest)
  from Cons.prems obtain seg1 r1 where
    inner: "spiketrain_inner g lazy i 3 seg r = Inr (seg1, r1)"
    and outer: "spiketrain_loop g lazy rest seg1 r1 = Inr (seg', r')"
    by (auto split: sum.splits)
  from spiketrain_inner_uniform [OF inner] Cons.IH [OF outer] show ?case by simp
qed

text \<open>With scipy imported and uniform draws in \<open>[0, 1)\<close> the spike-train loops return.\<close>

lemma spiketrain_inner_ok:
  assumes "HAVE_SCIPY g" and "stats g = Some pdf" and "rng_ok r"
  shows "\<exists>res. spiketrain_inner g lazy i k seg r = Inr res"
  using assms(3)
proof (induction k arbitrary: seg r)
  case 0
  show ?case by simp
next
  case (Suc k)
  obtain w where w: "spike_template pdf = Inr w" by (simp add: spike_template_Inr)
  have d: "(0::real) \<le> 15" by simp
  show ?case
  proof (cases lazy)
    case True
    then show ?thesis
      using Suc.IH [OF Suc.prems] by (simp add: read_spiketrain_lazy [OF assms(1,2)])
  next
    case False
    have "rng_ok (r\<lparr>pos := pos r + 40 + 40 * length w\<rparr>)" using Suc.prems by simp
    from Suc.IH [OF this] False show ?thesis
      by (simp add: read_spiketrain_eager [OF assms(1,2) w Suc.prems d])
  qed
qed

lemma spiketrain_loop_ok:
  assumes "HAVE_SCIPY g" and "stats g = Some pdf" and "rng_ok r"
  shows "\<exists>res. spiketrain_loop g lazy chans seg r = Inr res"
  using assms(3)
proof (induction chans arbitrary: seg r)
  case Nil
  show ?case by simp
next
  case (Cons i rest)
  obtain seg1 r1 where inner: "spiketrain_inner g lazy i 3 seg r = Inr (seg1, r1)"
    using spiketrain_inner_ok [OF assms(1,2) Cons.prems, of lazy i 3 seg] by auto
  from spiketrain_inner_uniform [OF inner] Cons.prems have "rng_ok r1"
    by (simp add: rng_ok_def)
  from Cons.IH [OF this, of seg1] inner show ?case by simp
qed

lemma spiketrain_inner_lazy_rng:
  "spiketrain_inner g True i k seg r = Inr (seg', r') \<Longrightarrow> r' = r"
proof (induction k arbitrary: seg r)
  case 0
  then show ?case by simp
next
  case (Suc k)
  from Suc.prems obtain sptr r1 where
    sptr: "read_spiketrain g True True 15 (- 1) i r = Inr (sptr, r1)"
    and rest: "spiketrain_inner g True i k (seg\<lparr>spiketrains := spiketrains seg @ [sptr]\<rparr>) r1
                 = Inr (seg', r')"
    by (auto split: sum.splits)
  from sptr have "r1 = r"
    by (auto simp: read_spiketrain_def Let_def split: if_splits option.splits sum.splits)
  with Suc.IH [OF rest] show ?case by simp
qed

lemma spiketrain_loop_lazy_rng:
  "spiketrain_loop g True chans seg r = Inr (seg', r') \<Longrightarrow> r' = r"
proof (induction chans arbitrary: seg r)
  case Nil
  then show ?case by simp
next
  case (Cons i rest)
  from Cons.prems obtain seg1 r1 where
    inner: "spiketrain_inner g True i 3 seg r = Inr (seg1, r1)"
    and outer: "spiketrain_loop g True rest seg1 r1 = Inr (seg', r')"
    by (auto split: sum.splits)
  from spiketrain_inner_lazy_rng [OF inner] Cons.IH [OF outer] show ?case by simp
qed

subsection \<open>The duration\<close>

lemma segment_duration_of_eq:
  assumes "shape a = Some n" and "start_time a = Some s" and "sample_rate a = Some sr"
    and n: "1 \<le> n" and sr: "0 < sr"
  shows "segment_duration_of a = Inr ((real_of_int (n - 1) + s) / sr)"
    and "(real_of_int (n - 1) + s) / sr = Max ((\<lambda>i. (real_of_int i + s) / sr) ` {0..<n})"
proof -
  let ?f = "\<lambda>x. (x + s) / sr"
  let ?ts = "map ?f (arange 0 n 1)"
  have set_ts: "set ?ts = (\<lambda>i. (real_of_int i + s) / sr) ` {0..<n}"
  proof -
    have "set (arange 0 n 1) = (\<lambda>k. real_of_int (int k)) ` {0..<nat n}"
      by (simp add: arange_def)
    also have "\<dots> = real_of_int ` (int ` {0..<nat n})"
      by (simp only: image_image)
    also have "int ` {0..<nat n} = {0..<n}"
      using n by (simp add: image_int_atLeastLessThan)
    finally show ?thesis by (simp add: image_image)
  qed
  have ne: "?ts \<noteq> []" using n by (simp add: arange_def)
  have mx: "Max ((\<lambda>i. (real_of_int i + s) / sr) ` {0..<n}) = (real_of_int (n - 1) + s) / sr"
  proof (rule Max_eqI)
    show "finite ((\<lambda>i. (real_of_int i + s) / sr) ` {0..<n})" by simp
    show "(real_of_int (n - 1) + s) / sr \<in> (\<lambda>i. (real_of_int i + s) / sr) ` {0..<n}"
      using n by (intro image_eqI [of _ _ "n - 1"]) auto
    fix y assume "y \<in> (\<lambda>i. (real_of_int i + s) / sr) ` {0..<n}"
    then obtain i where i: "0 \<le> i" "i < n" "y = (real_of_int i + s) / sr" by auto
    from i(2) have "real_of_int i \<le> real_of_int (n - 1)" by simp
    then have "(real_of_int i + s) / sr \<le> (real_of_int (n - 1) + s) / sr"
      using sr by (simp add: divide_le_cancel)
    with i(3) show "y \<le> (real_of_int (n - 1) + s) / sr" by simp
  qed
  show "segment_duration_of a = Inr ((real_of_int (n - 1) + s) / sr)"
    using assms(1-3) py_max_Max [OF ne] set_ts mx
    by (simp add: segment_duration_of_def getitem_attr_def)
  show "(real_of_int (n - 1) + s) / sr = Max ((\<lambda>i. (real_of_int i + s) / sr) ` {0..<n})"
    using mx by simp
qed

subsection \<open>Shallow and cascaded reads\<close>

lemma read_segment_no_cascade_eq:
  "read_segment g fs filename lazy False dataset r =
     (case h5py_File fs filename of
        Inl e \<Rightarrow> Inl e
      | Inr kwik \<Rightarrow>
          (case h5py_File fs (fst (splitext filename) @ ''.raw.kwd'') of
             Inl e \<Rightarrow> Inl e
           | Inr kwd \<Rightarrow>
               (case lookup_recording kwd dataset of
                  Inl e \<Rightarrow> Inl e
                | Inr rec \<Rightarrow> Inr (Segment ''session something'', r))))"
  by (simp add: read_segment_def case_prod_beta Let_def split: sum.splits)

lemma read_segment_cascade_Inr:
  assumes "read_segment g fs filename lazy True dataset r = Inr (seg, r')"
  shows "\<exists>kwik kwd rec seg1 seg2 r1 epo m.
           fs filename = Some kwik
         \<and> fs (fst (splitext filename) @ ''.raw.kwd'') = Some kwd
         \<and> recordings kwd dataset = Some rec
         \<and> analogsignal_loop g lazy kwd dataset [0..<snd (dshape (data rec))]
              (Segment ''session something'') = Inr seg1
         \<and> spiketrain_loop g lazy [0..<snd (dshape (data rec))] seg1 r = Inr (seg2, r1)
         \<and> read_stimulus g lazy r1 = Inr (epo, r')
         \<and> segment_duration_of (attrs rec) = Inr m
         \<and> seg = seg2\<lparr>epocharrays := epocharrays seg2 @ [epo], duration := Some m\<rparr>"
  using assms
  by (auto simp: read_segment_def h5py_File_def lookup_recording_def Let_def case_prod_beta
           split: sum.splits option.splits)

text \<open>
  Every cascaded read that returns a segment, lazy or eager, holds one signal per channel
  index in order, three spike trains per channel annotated with that channel, and one
  epoch collection.
\<close>

lemma read_segment_cascade_counts:
  assumes "read_segment g fs filename lazy True dataset r = Inr (seg, r')"
  shows "\<exists>kwd rec. fs (fst (splitext filename) @ ''.raw.kwd'') = Some kwd
           \<and> recordings kwd dataset = Some rec
           \<and> map ana_channel_index (analogsignals seg) = [0..<snd (dshape (data rec))]
           \<and> map sp_annotations (spiketrains seg)
               = concat (map (\<lambda>i. replicate 3 [(''channel_index'', i)])
                           [0..<snd (dshape (data rec))])
           \<and> length (spiketrains seg) = 3 * snd (dshape (data rec))
           \<and> length (epocharrays seg) = 1"
proof -
  from read_segment_cascade_Inr [OF assms] obtain kwd rec seg1 seg2 r1 epo m where
    kwd: "fs (fst (splitext filename) @ ''.raw.kwd'') = Some kwd"
    and rec: "recordings kwd dataset = Some rec"
    and l1: "analogsignal_loop g lazy kwd dataset [0..<snd (dshape (data rec))]
               (Segment ''session something'') = Inr seg1"
    and l2: "spiketrain_loop g lazy [0..<snd (dshape (data rec))] seg1 r = Inr (seg2, r1)"
    and seg: "seg = seg2\<lparr>epocharrays := epocharrays seg2 @ [epo], duration := Some m\<rparr>"
    by blast
  let ?n = "snd (dshape (data rec))"
  from analogsignal_loop_Inr [OF l1] obtain anas where
    anas: "seg1 = (Segment ''session something'')
                    \<lparr>analogsignals := analogsignals (Segment ''session something'') @ anas\<rparr>"
      "map ana_channel_index anas = [0..<?n]"
    by blast
  from spiketrain_loop_Inr [OF l2] obtain sts where
    sts: "seg2 = seg1\<lparr>spiketrains := spiketrains seg1 @ sts\<rparr>"
      "map sp_annotations sts = concat (map (\<lambda>i. replicate 3 [(''channel_index'', i)]) [0..<?n])"
    by blast
  have len: "length (concat (map (\<lambda>i. replicate 3 [(''channel_index'', i)]) [0..<?n])) = 3 * ?n"
    by (simp add: length_concat o_def sum_list_triv)
  have "length sts = 3 * ?n"
    using arg_cong [OF sts(2), of length] len by simp
  then show ?thesis
    using kwd rec anas sts seg by (simp add: Segment_def)
qed

text \<open>While \<^verbatim>\<open>timevect\<close> is unbound no eager cascaded read returns a segment.\<close>

lemma read_segment_eager_unbound:
  assumes "timevect g = None"
  shows "read_segment g fs filename False True dataset r \<noteq> Inr res"
proof
  assume "read_segment g fs filename False True dataset r = Inr res"
  then obtain seg r' where "read_segment g fs filename False True dataset r = Inr (seg, r')"
    by (cases res) simp
  from read_segment_cascade_Inr [OF this] obtain r1 epo where
    "read_stimulus g False r1 = Inr (epo, r')" by blast
  with read_stimulus_unbound [OF assms, of r1] show False by simp
qed

text \<open>
  Claim C5. A \<^verbatim>\<open>read_segment\<close> with \<^verbatim>\<open>cascade=False\<close> that returns, lazy or not,
  returns a segment without signals, spike trains or epochs and with no duration, and
  leaves the generator untouched. It returns as soon as both files open and the dataset
  exists, whatever the attributes, the rows of the array and the module globals are:
  nothing beyond the shape lookup is read.
\<close>

theorem read_segment_no_cascade:
  "(read_segment g fs filename lazy False dataset r = Inr (seg, r') \<longrightarrow>
      analogsignals seg = [] \<and> spiketrains seg = [] \<and> epocharrays seg = []
      \<and> duration seg = None \<and> r' = r)
   \<and> (fs filename = Some kwik \<and> fs (fst (splitext filename) @ ''.raw.kwd'') = Some kwd
        \<and> recordings kwd dataset = Some rec \<longrightarrow>
        (\<exists>seg. read_segment g fs filename lazy False dataset r = Inr (seg, r)))"
  by (auto simp: read_segment_no_cascade_eq Segment_def h5py_File_def lookup_recording_def
        split: sum.splits option.splits)

theorem read_segment_no_cascade_witness:
  "\<exists>seg. read_segment (load_module None) example_fs ''exp.kwik'' False False 0 example_rng
            = Inr (seg, example_rng)
         \<and> analogsignals seg = [] \<and> spiketrains seg = [] \<and> epocharrays seg = []
         \<and> duration seg = None"
proof -
  have "example_fs ''exp.kwik'' = Some \<lparr>recordings = Map.empty\<rparr>
        \<and> example_fs (fst (splitext ''exp.kwik'') @ ''.raw.kwd'') = Some example_kwd
        \<and> recordings example_kwd 0 = Some example_recording"
    by (simp add: example_fs_simps splitext_example)
  with read_segment_no_cascade
         [of "load_module None" example_fs "''exp.kwik''" False 0 example_rng _ example_rng
             "\<lparr>recordings = Map.empty\<rparr>" example_kwd example_recording]
  show ?thesis by blast
qed

text \<open>
  The duration of a cascaded read. Over a dataset whose attributes declare \<open>n \<ge> 1\<close>
  samples, start offset \<open>s\<close> and sample rate \<open>sr > 0\<close>, every cascaded \<^verbatim>\<open>read_segment\<close>
  that returns a segment sets its duration to \<open>(n - 1 + s) / sr\<close>, which is the maximum
  of \<open>(i + s) / sr\<close> over the sample indices \<open>i\<close> in \<open>[0, n)\<close>; and the lazy cascaded
  read does return one whenever scipy was imported and the primary file opens.
\<close>

lemma read_segment_duration:
  assumes kwd: "fs (fst (splitext filename) @ ''.raw.kwd'') = Some kwd"
    and rec: "recordings kwd dataset = Some rec"
    and attrs: "shape (attrs rec) = Some n" "start_time (attrs rec) = Some s"
      "sample_rate (attrs rec) = Some sr"
    and n: "1 \<le> n" and sr: "0 < sr"
  shows "(read_segment g fs filename lazy True dataset r = Inr (seg, r') \<longrightarrow>
            duration seg = Some ((real_of_int (n - 1) + s) / sr))
       \<and> (real_of_int (n - 1) + s) / sr = Max ((\<lambda>i. (real_of_int i + s) / sr) ` {0..<n})
       \<and> (HAVE_SCIPY g \<and> stats g = Some pdf \<and> fs filename = Some kwik \<longrightarrow>
            (\<exists>seg. read_segment g fs filename True True dataset r = Inr (seg, r)))"
proof (intro conjI impI)
  note dur = segment_duration_of_eq [OF attrs n sr]
  show "(real_of_int (n - 1) + s) / sr = Max ((\<lambda>i. (real_of_int i + s) / sr) ` {0..<n})"
    by (rule dur(2))
  {
    assume "read_segment g fs filename lazy True dataset r = Inr (seg, r')"
    from read_segment_cascade_Inr [OF this] obtain kwd' rec' seg2 epo m where
      "fs (fst (splitext filename) @ ''.raw.kwd'') = Some kwd'"
      "recordings kwd' dataset = Some rec'"
      "segment_duration_of (attrs rec') = Inr m"
      "seg = seg2\<lparr>epocharrays := epocharrays seg2 @ [epo], duration := Some m\<rparr>"
      by blast
    with kwd rec dur(1) show "duration seg = Some ((real_of_int (n - 1) + s) / sr)"
      by simp
  }
  {
    assume a: "HAVE_SCIPY g \<and> stats g = Some pdf \<and> fs filename = Some kwik"
    let ?n = "snd (dshape (data rec))"
    obtain seg1 where l1: "analogsignal_loop g True kwd dataset [0..<?n]
                             (Segment ''session something'') = Inr seg1"
      using analogsignal_loop_lazy_ok [OF rec attrs(3) attrs(2) attrs(1)] by blast
    have lazy_inner: "\<exists>res. spiketrain_inner g True i k sg r = Inr res" for i k sg
      using a by (induction k arbitrary: sg) (simp_all add: read_spiketrain_lazy)
    have lazy_loop: "\<exists>res. spiketrain_loop g True chans sg r = Inr res" for chans sg
    proof (induction chans arbitrary: sg)
      case Nil
      show ?case by simp
    next
      case (Cons i rest)
      obtain sg1 r1 where inner: "spiketrain_inner g True i 3 sg r = Inr (sg1, r1)"
        using lazy_inner [of i 3 sg] by auto
      from spiketrain_inner_lazy_rng [OF inner] have "r1 = r" .
      with Cons.IH [of sg1] inner show ?case by simp
    qed
    obtain seg2 r1 where l2: "spiketrain_loop g True [0..<?n] seg1 r = Inr (seg2, r1)"
      using lazy_loop [of "[0..<?n]" seg1] by auto
    from spiketrain_loop_lazy_rng [OF l2] have r1: "r1 = r" .
    show "\<exists>seg. read_segment g fs filename True True dataset r = Inr (seg, r)"
      using a kwd rec l1 l2 r1 dur(1)
      by (simp add: read_segment_def case_prod_beta h5py_File_def lookup_recording_def
            read_stimulus_lazy)
  }
qed

lemma read_segment_lazy_example:
  "\<exists>seg. read_segment (load_module (Some example_pdf)) example_fs ''exp.kwik'' True True 0
            example_rng = Inr (seg, example_rng)
         \<and> duration seg = Some 1"
proof -
  let ?g = "load_module (Some example_pdf)"
  have h: "example_fs (fst (splitext ''exp.kwik'') @ ''.raw.kwd'') = Some example_kwd"
    "recordings example_kwd 0 = Some example_recording"
    "shape (attrs example_recording) = Some 3"
    "start_time (attrs example_recording) = Some 0"
    "sample_rate (attrs example_recording) = Some 2"
    "(1::int) \<le> 3" "(0::real) < 2"
    by (simp_all add: example_fs_simps splitext_example example_recording_def)
  have g: "HAVE_SCIPY ?g \<and> stats ?g = Some example_pdf
           \<and> example_fs ''exp.kwik'' = Some \<lparr>recordings = Map.empty\<rparr>"
    by (simp add: load_module_simps example_fs_simps)
  note inst = read_segment_duration [where fs = example_fs and filename = "''exp.kwik''"
                and g = ?g and r = example_rng, OF h]
  from inst [where pdf = example_pdf and kwik = "\<lparr>recordings = Map.empty\<rparr>"] g
  obtain seg where
    seg: "read_segment ?g example_fs ''exp.kwik'' True True 0 example_rng = Inr (seg, example_rng)"
    by blast
  from inst [where lazy = True and seg = seg and r' = example_rng] seg
  have "duration seg = Some ((real_of_int (3 - 1) + 0) / 2)" by blast
  with seg show ?thesis by simp
qed

text \<open>
  Once the environment binds a non-empty \<^verbatim>\<open>timevect\<close>, the eager cascaded read returns
  too, provided the array has a row for every channel index the loop asks for.
\<close>

lemma analogsignal_loop_eager_ok:
  assumes "recordings kwd ds = Some rec" and "sample_rate (attrs rec) = Some sr"
    and "start_time (attrs rec) = Some st"
    and "\<forall>i\<in>set chans. i < length (rows (data rec))"
  shows "\<exists>seg'. analogsignal_loop g False kwd ds chans seg = Inr seg'"
  using assms(4)
  by (induction chans arbitrary: seg)
    (simp_all add: read_analogsignal_def lookup_recording_def getitem_row_def
       getitem_attr_def assms(1-3))

lemma read_segment_eager_supplied:
  assumes scipy: "HAVE_SCIPY g" "stats g = Some pdf"
    and tv: "timevect g = Some tv" "tv \<noteq> []" and rng: "rng_ok r"
    and kwik: "fs filename = Some kwik"
    and kwd: "fs (fst (splitext filename) @ ''.raw.kwd'') = Some kwd"
    and rec: "recordings kwd dataset = Some rec"
    and attrs: "shape (attrs rec) = Some n" "start_time (attrs rec) = Some s"
      "sample_rate (attrs rec) = Some sr"
    and n: "1 \<le> n" and sr: "0 < sr"
    and rows: "snd (dshape (data rec)) \<le> length (rows (data rec))"
  shows "\<exists>seg r'. read_segment g fs filename False True dataset r = Inr (seg, r')
           \<and> duration seg = Some ((real_of_int (n - 1) + s) / sr)"
proof -
  let ?n = "snd (dshape (data rec))"
  note dur = segment_duration_of_eq [OF attrs n sr]
  have "\<forall>i\<in>set [0..<?n]. i < length (rows (data rec))" using rows by simp
  from analogsignal_loop_eager_ok [OF rec attrs(3) attrs(2) this]
  obtain seg1 where l1: "analogsignal_loop g False kwd dataset [0..<?n]
                           (Segment ''session something'') = Inr seg1"
    by blast
  obtain seg2 r1 where l2: "spiketrain_loop g False [0..<?n] seg1 r = Inr (seg2, r1)"
    using spiketrain_loop_ok [OF scipy rng, of False "[0..<?n]" seg1] by auto
  from spiketrain_loop_uniform [OF l2] rng have "rng_ok r1" by (simp add: rng_ok_def)
  from read_stimulus_supplied [OF tv this]
  obtain epo r2 where st: "read_stimulus g False r1 = Inr (epo, r2)" by blast
  show ?thesis
    using kwik kwd rec l1 l2 st dur(1)
    by (simp add: read_segment_def case_prod_beta h5py_File_def lookup_recording_def)
qed

text \<open>
  Claim C6 says that every cascaded \<^verbatim>\<open>read_segment\<close> over a dataset declaring \<open>N \<ge> 1\<close>
  samples, offset \<open>s\<close> and rate \<open>r > 0\<close> yields a segment of duration \<open>(N - 1 + s) / r\<close>.
  The code departs from it for eager reads: in the module as it is written they raise
  before any duration is set. On the synthetic container, whose attributes give the
  duration \<open>(3 - 1 + 0) / 2\<close>, the eager cascaded read ends in an error and yields no
  segment.
\<close>

theorem read_segment_eager_duration_example:
  "map_sum id (\<lambda>res. duration (fst res))
     (read_segment (load_module (Some example_pdf)) example_fs ''exp.kwik'' False True 0
        example_rng) = Inl NameError
   \<and> segment_duration_of (attrs example_recording) = Inr ((real_of_int (3 - 1) + 0) / 2)"
proof -
  let ?g = "load_module (Some example_pdf)"
  have nc: "snd (dshape (data example_recording)) = 2"
    by (simp add: dshape_def example_recording_def)
  have "\<forall>i\<in>set [0..<2]. i < length (rows (data example_recording))"
    by (simp add: example_recording_def)
  from analogsignal_loop_eager_ok [OF example_fs_simps(3) _ _ this, of 2 0 ?g]
  obtain seg1 where seg1:
    "analogsignal_loop ?g False example_kwd 0 [0..<2] (Segment ''session something'') = Inr seg1"
    by (auto simp: example_recording_def)
  obtain seg2 r1 where seg2: "spiketrain_loop ?g False [0..<2] seg1 example_rng = Inr (seg2, r1)"
    using spiketrain_loop_ok [of ?g example_pdf example_rng False "[0..<2]" seg1]
    by (auto simp: load_module_simps example_rng_ok)
  have stim: "read_stimulus ?g False r1 = Inl NameError"
    by (simp add: read_stimulus_unbound load_module_simps)
  have "read_segment ?g example_fs ''exp.kwik'' False True 0 example_rng = Inl NameError"
    by (simp add: read_segment_def splitext_example h5py_File_def example_fs_simps
          lookup_recording_def nc seg1 seg2 stim)
  moreover have "segment_duration_of (attrs example_recording)
                   = Inr ((real_of_int (3 - 1) + 0) / 2)"
    by (rule segment_duration_of_eq (1)) (simp_all add: example_recording_def)
  ultimately show ?thesis by simp
qed

text \<open>
  Claim C1 says that every eager cascaded \<^verbatim>\<open>read_segment\<close> returns a segment with one
  signal per channel, three spike trains per channel and one epoch collection. The code
  departs from it: in the module as it is written no eager cascaded read returns at all.
  On the synthetic two-channel container the two signals and the six spike trains are
  read, then the eager \<^verbatim>\<open>read_stimulus\<close> raises \<^verbatim>\<open>NameError\<close>.
\<close>

theorem read_segment_eager_cascade_example:
  "read_segment (load_module (Some example_pdf)) example_fs ''exp.kwik'' False True 0 example_rng
     = Inl NameError"
proof -
  let ?g = "load_module (Some example_pdf)"
  have nc: "snd (dshape (data example_recording)) = 2"
    by (simp add: dshape_def example_recording_def)
  have upt2: "[0..<2] = [0, Suc 0]" by (simp add: upt_conv_Cons)
  obtain seg1 where seg1:
    "analogsignal_loop ?g False example_kwd 0 [0..<2] (Segment ''session something'') = Inr seg1"
    by (simp add: upt2 read_analogsignal_def lookup_recording_def example_fs_simps
          getitem_row_def getitem_attr_def example_recording_def)
  obtain seg2 r1 where seg2: "spiketrain_loop ?g False [0..<2] seg1 example_rng = Inr (seg2, r1)"
    using spiketrain_loop_ok [of ?g example_pdf example_rng False "[0..<2]" seg1]
    by (auto simp: load_module_simps example_rng_ok)
  have stim: "read_stimulus ?g False r1 = Inl NameError"
    by (simp add: read_stimulus_unbound load_module_simps)
  show ?thesis
    by (simp add: read_segment_def splitext_example h5py_File_def example_fs_simps
          lookup_recording_def nc seg1 seg2 stim)
qed

end
